theory Spec2Isabelle
  imports Main "HOL-Library.Sublist" "HOL-Library.AList" "HOL-Library.Char_ord"
    "HOL-Library.List_Lexorder"
begin

section \<open>Cells, strings and series\<close>

text \<open>
  A cell of a pandas object column holds a Python value. The values the module inspects are
  strings, integers, booleans and the missing value NaN. Other floating-point values are
  not part of the cell type: the renderer reads coordinates through a conversion that is a
  parameter of the model.
\<close>

datatype cell = CStr string | CInt int | CBool bool | CNaN

type_synonym series = "cell list"

datatype error = KeyError string | TypeError | ValueError | NoObject

text \<open>Python's \<open>==\<close> on cells: \<open>True == 1\<close> and \<open>False == 0\<close> hold, NaN equals nothing.\<close>

fun py_eq :: "cell \<Rightarrow> cell \<Rightarrow> bool" where
  "py_eq (CStr a) (CStr b) = (a = b)"
| "py_eq (CInt a) (CInt b) = (a = b)"
| "py_eq (CBool a) (CBool b) = (a = b)"
| "py_eq (CInt a) (CBool b) = (a = (if b then 1 else 0))"
| "py_eq (CBool a) (CInt b) = (b = (if a then 1 else 0))"
| "py_eq _ _ = False"

text \<open>Python's \<open>sub in s\<close> on strings: \<open>sub\<close> occurs in \<open>s\<close> as a contiguous block.\<close>

fun str_in :: "string \<Rightarrow> string \<Rightarrow> bool" where
  "str_in sub [] = (sub = [])"
| "str_in sub (c # cs) = (prefix sub (c # cs) \<or> str_in sub cs)"

definition lower_ascii :: "char \<Rightarrow> char" where
  "lower_ascii c =
     (case map_of (zip ''ABCDEFGHIJKLMNOPQRSTUVWXYZ'' ''abcdefghijklmnopqrstuvwxyz'') c of
        Some d \<Rightarrow> d
      | None \<Rightarrow> c)"

text \<open>
  \<open>re.search(pat, s, re.IGNORECASE)\<close> for a pattern of plain ASCII letters: a literal
  search that ignores the case of ASCII letters.
\<close>

definition contains_nocase :: "string \<Rightarrow> string \<Rightarrow> bool" where
  "contains_nocase pat s = str_in (map lower_ascii pat) (map lower_ascii s)"

definition digit_char :: "nat \<Rightarrow> char" where
  "digit_char n = ''0123456789'' ! (n mod 10)"

fun nat_digits :: "nat \<Rightarrow> string" where
  "nat_digits n = (if n < 10 then [digit_char n] else nat_digits (n div 10) @ [digit_char n])"

declare nat_digits.simps [simp del]

text \<open>Python's \<open>str(x)\<close> on a cell.\<close>

fun py_str :: "cell \<Rightarrow> string" where
  "py_str (CStr s) = s"
| "py_str (CInt i) = (if i < 0 then CHR ''-'' # nat_digits (nat (- i)) else nat_digits (nat i))"
| "py_str (CBool b) = (if b then ''True'' else ''False'')"
| "py_str CNaN = ''nan''"

text \<open>\<open>Series == v\<close>, \<open>Series.isin(values)\<close> for a list of strings, \<open>Series.astype(str)\<close>.\<close>

definition series_eq :: "series \<Rightarrow> cell \<Rightarrow> bool list" where
  "series_eq s v = map (\<lambda>x. py_eq x v) s"

definition isin :: "series \<Rightarrow> string list \<Rightarrow> bool list" where
  "isin s vals = map (\<lambda>x. x \<in> set (map CStr vals)) s"

definition astype_str :: "series \<Rightarrow> series" where
  "astype_str s = map (\<lambda>x. CStr (py_str x)) s"

text \<open>
  \<open>Series.str.contains(pat, case=False, na=False)\<close>: elements that are not strings give the
  \<open>na\<close> value.
\<close>

definition str_contains_nocase :: "string \<Rightarrow> series \<Rightarrow> bool list" where
  "str_contains_nocase pat s =
     map (\<lambda>x. case x of CStr t \<Rightarrow> contains_nocase pat t | _ \<Rightarrow> False) s"

text \<open>\<open>Series.apply(f)\<close>: the first element on which \<open>f\<close> raises ends the call.\<close>

fun series_apply :: "(cell \<Rightarrow> error + 'b) \<Rightarrow> series \<Rightarrow> error + 'b list" where
  "series_apply f [] = Inr []"
| "series_apply f (x # xs) =
     (case f x of
        Inl e \<Rightarrow> Inl e
      | Inr y \<Rightarrow> (case series_apply f xs of Inl e \<Rightarrow> Inl e | Inr ys \<Rightarrow> Inr (y # ys)))"

text \<open>
  \<open>lambda x: any(t in x for t in ts)\<close>: on a string the substring tests; on any other
  value the first test raises TypeError (no test is made when \<open>ts\<close> is empty).
\<close>

fun any_in :: "string list \<Rightarrow> cell \<Rightarrow> error + bool" where
  "any_in ts (CStr x) = Inr (list_ex (\<lambda>t. str_in t x) ts)"
| "any_in ts _ = (if ts = [] then Inr False else Inl TypeError)"

text \<open>The local function \<open>normalize\<close> of \<open>filter_instrClass\<close>.\<close>

fun normalize_str :: "string list \<Rightarrow> string \<Rightarrow> string" where
  "normalize_str [] instr = instr"
| "normalize_str (t # ts) instr = (if str_in t instr then t else normalize_str ts instr)"

fun normalize :: "string list \<Rightarrow> cell \<Rightarrow> error + cell" where
  "normalize types (CStr x) = Inr (CStr (normalize_str types x))"
| "normalize types c = (if types = [] then Inr c else Inl TypeError)"

text \<open>Boolean indexing of a sequence: the elements at the positions where the mask is true.\<close>

definition select :: "bool list \<Rightarrow> 'a list \<Rightarrow> 'a list" where
  "select msk xs = map snd (filter fst (zip msk xs))"

section \<open>Data frames and the object store\<close>

text \<open>
  A DataFrame: the row labels and the columns in their order, each a series aligned with the
  labels. DataFrames are mutable objects; the store holds them, a reference is a position
  in the store, and a new object is appended.
\<close>

record dataframe =
  df_index :: "int list"
  df_cols :: "(string \<times> series) list"

type_synonym ref = nat

type_synonym store = "dataframe list"

type_synonym 'a prog = "store \<Rightarrow> (error + 'a) \<times> store"

definition ret :: "'a \<Rightarrow> 'a prog" where
  "ret x h = (Inr x, h)"

definition raise :: "error \<Rightarrow> 'a prog" where
  "raise e h = (Inl e, h)"

definition bindM :: "'a prog \<Rightarrow> ('a \<Rightarrow> 'b prog) \<Rightarrow> 'b prog" where
  "bindM m f h = (case m h of (Inl e, h') \<Rightarrow> (Inl e, h') | (Inr x, h') \<Rightarrow> f x h')"

definition lift :: "error + 'a \<Rightarrow> 'a prog" where
  "lift r h = (r, h)"

definition lookup :: "store \<Rightarrow> ref \<Rightarrow> dataframe option" where
  "lookup h r = (if r < length h then Some (h ! r) else None)"

definition deref :: "ref \<Rightarrow> dataframe prog" where
  "deref r h = (case lookup h r of None \<Rightarrow> (Inl NoObject, h) | Some d \<Rightarrow> (Inr d, h))"

definition alloc :: "dataframe \<Rightarrow> ref prog" where
  "alloc d h = (Inr (length h), h @ [d])"

text \<open>\<open>len(df)\<close>, \<open>df.empty\<close> (some axis has length 0) and \<open>c in df.columns\<close>.\<close>

definition nrows :: "dataframe \<Rightarrow> nat" where
  "nrows d = length (df_index d)"

definition df_empty :: "dataframe \<Rightarrow> bool" where
  "df_empty d = (df_index d = [] \<or> df_cols d = [])"

definition has_col :: "dataframe \<Rightarrow> string \<Rightarrow> bool" where
  "has_col d c = (c \<in> set (map fst (df_cols d)))"

text \<open>\<open>df.copy()\<close>: a new object with the same contents.\<close>

definition df_copy :: "ref \<Rightarrow> ref prog" where
  "df_copy r = bindM (deref r) alloc"

text \<open>\<open>df[c]\<close> for a column name: KeyError when the column is absent.\<close>

definition df_getitem :: "ref \<Rightarrow> string \<Rightarrow> series prog" where
  "df_getitem r c =
     bindM (deref r) (\<lambda>d.
       case map_of (df_cols d) c of None \<Rightarrow> raise (KeyError c) | Some s \<Rightarrow> ret s)"

text \<open>
  \<open>df[c] = s\<close>: replaces the column in place, in the object itself (a new column goes to
  the end).
\<close>

definition set_col :: "dataframe \<Rightarrow> string \<Rightarrow> series \<Rightarrow> dataframe" where
  "set_col d c s = d\<lparr>df_cols := AList.update c s (df_cols d)\<rparr>"

definition df_setitem :: "ref \<Rightarrow> string \<Rightarrow> series \<Rightarrow> unit prog" where
  "df_setitem r c s = bindM (deref r) (\<lambda>d h. (Inr (), h[r := set_col d c s]))"

text \<open>\<open>df[mask]\<close> for a boolean series: a new object holding the selected rows.\<close>

definition mask_rows :: "dataframe \<Rightarrow> bool list \<Rightarrow> dataframe" where
  "mask_rows d msk =
     \<lparr>df_index = select msk (df_index d),
      df_cols = map (\<lambda>(c, s). (c, select msk s)) (df_cols d)\<rparr>"

definition df_getitem_mask :: "ref \<Rightarrow> bool list \<Rightarrow> ref prog" where
  "df_getitem_mask r msk = bindM (deref r) (\<lambda>d. alloc (mask_rows d msk))"

section \<open>The filters\<close>

text \<open>
  Each filter follows its source statement by statement; the progress and statistics lines
  they print are not part of the model. The caller-supplied lists are lists of strings.
\<close>

definition filter_valid :: "ref \<Rightarrow> ref prog" where
  "filter_valid df =
     bindM (df_copy df) (\<lambda>df_before.
     bindM (df_getitem df ''valid'') (\<lambda>col.
     bindM (df_getitem_mask df (series_eq col (CBool True))) (\<lambda>filtered_df.
     ret filtered_df)))"

definition filter_country :: "ref \<Rightarrow> string list \<Rightarrow> ref prog" where
  "filter_country df countries =
     bindM (df_copy df) (\<lambda>df_before.
     bindM (df_getitem df ''countryCode'') (\<lambda>col.
     bindM (df_getitem_mask df (isin col countries)) (\<lambda>filtered_df.
     ret filtered_df)))"

definition filter_active :: "ref \<Rightarrow> ref prog" where
  "filter_active df =
     bindM (df_copy df) (\<lambda>df_before.
     bindM (df_getitem df ''insarEnd'') (\<lambda>col.
     bindM (df_getitem_mask df (series_eq col (CInt 99999999))) (\<lambda>filtered_df.
     ret filtered_df)))"

definition filter_satSys :: "ref \<Rightarrow> string list \<Rightarrow> ref prog" where
  "filter_satSys df0 satSystems =
     bindM (df_copy df0) (\<lambda>df_before.
     bindM (df_copy df0) (\<lambda>df.
     bindM (df_getitem df ''satSys'') (\<lambda>col.
     bindM (df_setitem df ''satSys'' (astype_str col)) (\<lambda>_.
     bindM (df_getitem df ''satSys'') (\<lambda>col1.
     bindM (df_getitem df ''satSys'') (\<lambda>col2.
     bindM (lift (series_apply (any_in satSystems) col2)) (\<lambda>hits.
     bindM (df_getitem_mask df
              (map (\<lambda>(a, b). a \<or> b) (zip (str_contains_nocase ''All'' col1) hits)))
       (\<lambda>filtered_df.
     ret filtered_df))))))))"

definition filter_instrClass :: "ref \<Rightarrow> string list \<Rightarrow> bool \<Rightarrow> ref prog" where
  "filter_instrClass df0 types strict =
     bindM (df_copy df0) (\<lambda>df_before.
     bindM (df_copy df0) (\<lambda>df.
     bindM (df_getitem df ''instrClass'') (\<lambda>col.
     bindM (df_setitem df ''instrClass'' (astype_str col)) (\<lambda>_.
     if strict then
       bindM (df_getitem df ''instrClass'') (\<lambda>col1.
       bindM (df_getitem_mask df (isin col1 types)) (\<lambda>filtered_df.
       ret filtered_df))
     else
       bindM (df_getitem df ''instrClass'') (\<lambda>col1.
       bindM (lift (series_apply (any_in types) col1)) (\<lambda>msk.
       bindM (df_getitem_mask df msk) (\<lambda>selected.
       bindM (df_copy selected) (\<lambda>filtered_df.
       bindM (df_getitem filtered_df ''instrClass'') (\<lambda>col2.
       bindM (lift (series_apply (normalize types) col2)) (\<lambda>normalized.
       bindM (df_setitem filtered_df ''instrClass'' normalized) (\<lambda>_.
       ret filtered_df)))))))))))"

definition filter_owner :: "ref \<Rightarrow> string list \<Rightarrow> ref prog" where
  "filter_owner df owners =
     bindM (df_copy df) (\<lambda>df_before.
     bindM (df_getitem df ''owner'') (\<lambda>col.
     bindM (df_getitem_mask df (isin col owners)) (\<lambda>filtered_df.
     ret filtered_df)))"

definition filter_siteId :: "ref \<Rightarrow> string list \<Rightarrow> ref prog" where
  "filter_siteId df sites =
     bindM (df_copy df) (\<lambda>df_before.
     bindM (df_getitem df ''siteId'') (\<lambda>col.
     bindM (df_getitem_mask df (isin col sites)) (\<lambda>filtered_df.
     ret filtered_df)))"

definition filter_lookDir :: "ref \<Rightarrow> string list \<Rightarrow> ref prog" where
  "filter_lookDir df0 directions =
     bindM (df_copy df0) (\<lambda>df_before.
     bindM (df_copy df0) (\<lambda>df.
     bindM (df_getitem df ''lookDir'') (\<lambda>col.
     bindM (df_setitem df ''lookDir'' (astype_str col)) (\<lambda>_.
     bindM (df_getitem df ''lookDir'') (\<lambda>col1.
     bindM (lift (series_apply (any_in directions) col1)) (\<lambda>msk.
     bindM (df_getitem_mask df msk) (\<lambda>filtered_df.
     ret filtered_df)))))))"

text \<open>The filters of the module, with the column each one reads.\<close>

datatype filter_call =
    Valid
  | Country "string list"
  | Active
  | SatSys "string list"
  | InstrClass "string list" bool
  | Owner "string list"
  | SiteId "string list"
  | LookDir "string list"

fun apply_filter :: "filter_call \<Rightarrow> ref \<Rightarrow> ref prog" where
  "apply_filter Valid df = filter_valid df"
| "apply_filter (Country countries) df = filter_country df countries"
| "apply_filter Active df = filter_active df"
| "apply_filter (SatSys satSystems) df = filter_satSys df satSystems"
| "apply_filter (InstrClass types strict) df = filter_instrClass df types strict"
| "apply_filter (Owner owners) df = filter_owner df owners"
| "apply_filter (SiteId sites) df = filter_siteId df sites"
| "apply_filter (LookDir directions) df = filter_lookDir df directions"

fun filter_column :: "filter_call \<Rightarrow> string" where
  "filter_column Valid = ''valid''"
| "filter_column (Country _) = ''countryCode''"
| "filter_column Active = ''insarEnd''"
| "filter_column (SatSys _) = ''satSys''"
| "filter_column (InstrClass _ _) = ''instrClass''"
| "filter_column (Owner _) = ''owner''"
| "filter_column (SiteId _) = ''siteId''"
| "filter_column (LookDir _) = ''lookDir''"

text \<open>
  Calling a filter on a table: the table is the only object of the store, and the result is
  the table the returned reference points to.
\<close>

definition call_filter :: "filter_call \<Rightarrow> dataframe \<Rightarrow> error + dataframe" where
  "call_filter F T =
     (case apply_filter F 0 [T] of
        (Inl e, h) \<Rightarrow> Inl e
      | (Inr r, h) \<Rightarrow> (case lookup h r of None \<Rightarrow> Inl NoObject | Some d \<Rightarrow> Inr d))"

section \<open>Rows of a data frame\<close>

text \<open>
  A row is its label and its cells by column name, in column order. The rows of a frame
  are read off its columns, column by column.
\<close>

type_synonym row = "int \<times> (string \<times> cell) list"

definition attach_col :: "string \<times> series \<Rightarrow> row list \<Rightarrow> row list" where
  "attach_col cs rs = map (\<lambda>(x, (i, r)). (i, (fst cs, x) # r)) (zip (snd cs) rs)"

definition df_rows :: "dataframe \<Rightarrow> row list" where
  "df_rows d = foldr attach_col (df_cols d) (map (\<lambda>i. (i, [])) (df_index d))"

definition row_cell :: "row \<Rightarrow> string \<Rightarrow> cell option" where
  "row_cell r c = map_of (snd r) c"

text \<open>The row with the cell of column \<open>c\<close>, when it has one, replaced by its image under \<open>f\<close>.\<close>

definition row_apply :: "string \<Rightarrow> (cell \<Rightarrow> cell) \<Rightarrow> row \<Rightarrow> row" where
  "row_apply c f r =
     (case row_cell r c of None \<Rightarrow> r | Some x \<Rightarrow> (fst r, AList.update c (f x) (snd r)))"

text \<open>The row without the cells of column \<open>c\<close>.\<close>

definition row_without :: "string \<Rightarrow> row \<Rightarrow> row" where
  "row_without c r = (fst r, filter (\<lambda>kv. fst kv \<noteq> c) (snd r))"

text \<open>A frame is well formed when every column is as long as the index.\<close>

definition wf_df :: "dataframe \<Rightarrow> bool" where
  "wf_df d = list_all (\<lambda>cs. length (snd cs) = length (df_index d)) (df_cols d)"

text \<open>
  Read row by row, a filter tests the cell of its column and hands the kept row back with
  that cell as the returned table holds it: \<open>cell_test\<close> is the element-wise test of
  the mask the source computes, \<open>cell_out\<close> the value written by \<open>astype(str)\<close> and
  by \<open>normalize\<close>.
\<close>

fun cell_test :: "filter_call \<Rightarrow> cell \<Rightarrow> bool" where
  "cell_test Valid x = py_eq x (CBool True)"
| "cell_test (Country countries) x = (x \<in> set (map CStr countries))"
| "cell_test Active x = py_eq x (CInt 99999999)"
| "cell_test (SatSys satSystems) x =
     (contains_nocase ''All'' (py_str x) \<or> list_ex (\<lambda>sat. str_in sat (py_str x)) satSystems)"
| "cell_test (InstrClass types strict) x =
     (if strict then py_str x \<in> set types else list_ex (\<lambda>instr. str_in instr (py_str x)) types)"
| "cell_test (Owner owners) x = (x \<in> set (map CStr owners))"
| "cell_test (SiteId sites) x = (x \<in> set (map CStr sites))"
| "cell_test (LookDir directions) x = list_ex (\<lambda>direction. str_in direction (py_str x)) directions"

fun cell_out :: "filter_call \<Rightarrow> cell \<Rightarrow> cell" where
  "cell_out (SatSys satSystems) x = CStr (py_str x)"
| "cell_out (InstrClass types strict) x =
     (if strict then CStr (py_str x) else CStr (normalize_str types (py_str x)))"
| "cell_out (LookDir directions) x = CStr (py_str x)"
| "cell_out F x = x"

text \<open>The filters whose source only selects rows: no cast, no rewriting.\<close>

fun selects_only :: "filter_call \<Rightarrow> bool" where
  "selects_only (SatSys satSystems) = False"
| "selects_only (InstrClass types strict) = False"
| "selects_only (LookDir directions) = False"
| "selects_only F = True"

text \<open>
  The closed form of the table a filter returns when its column holds the series \<open>s\<close>;
  \<open>call_filter\<close> is proved equal to it below.
\<close>

definition returned :: "filter_call \<Rightarrow> dataframe \<Rightarrow> series \<Rightarrow> dataframe" where
  "returned F T s =
     set_col (mask_rows T (map (cell_test F) s)) (filter_column F)
       (map (cell_out F) (select (map (cell_test F) s) s))"

section \<open>The symbol assigner and the renderer\<close>

text \<open>
  What the renderer takes from its libraries is a parameter of the model: matplotlib's
  palettes \<open>TABLEAU_COLORS\<close> and \<open>CSS4_COLORS\<close> (their values, in order), Python's
  \<open>float()\<close> on a cell (\<open>None\<close> when it raises) and the mean of a column of floats.
\<close>

record 'f libs =
  tableau_colors :: "string list"
  css4_colors :: "string list"
  to_float :: "cell \<Rightarrow> 'f option"
  float_mean :: "'f list \<Rightarrow> 'f"

text \<open>\<open>Series.dropna()\<close> and \<open>Series.unique()\<close>: first occurrences, compared by \<open>==\<close>.\<close>

definition dropna :: "series \<Rightarrow> series" where
  "dropna s = filter (\<lambda>x. x \<noteq> CNaN) s"

fun unique :: "cell list \<Rightarrow> cell list" where
  "unique [] = []"
| "unique (x # xs) = x # unique (filter (\<lambda>y. \<not> py_eq y x) xs)"

text \<open>
  \<open>sorted(xs)\<close> on cells without NaN: strings sort among themselves, integers and
  booleans among themselves by value, and comparing a string with a number raises
  TypeError.
\<close>

fun is_str :: "cell \<Rightarrow> bool" where
  "is_str (CStr s) = True"
| "is_str c = False"

fun is_number :: "cell \<Rightarrow> bool" where
  "is_number (CInt i) = True"
| "is_number (CBool b) = True"
| "is_number c = False"

fun num_val :: "cell \<Rightarrow> int" where
  "num_val (CInt i) = i"
| "num_val (CBool b) = (if b then 1 else 0)"
| "num_val c = 0"

definition py_sorted :: "cell list \<Rightarrow> error + cell list" where
  "py_sorted xs =
     (if list_all is_str xs then Inr (map CStr (sort (map py_str xs)))
      else if list_all is_number xs then Inr (sort_key num_val xs)
      else Inl TypeError)"

text \<open>
  \<open>while len(colors) < len(owners): colors += list(mcolors.CSS4_COLORS.values())\<close>.
  With an empty second palette the loop would not end; not returning is the value
  \<open>None\<close>.
\<close>

partial_function (option) extend_colors :: "string list \<Rightarrow> nat \<Rightarrow> string list \<Rightarrow> string list option"
where
  "extend_colors css4 n colors =
     (if length colors < n then extend_colors css4 n (colors @ css4) else Some colors)"

declare extend_colors.simps [code]

text \<open>
  The colour map of the owners (lines 208 to 213) and the shape map of the instrument
  classes (lines 215 to 218), as dictionaries in insertion order.
\<close>

definition make_owner_color_map ::
  "'f libs \<Rightarrow> series \<Rightarrow> (error + (cell \<times> string) list) option" where
  "make_owner_color_map L s =
     (case py_sorted (unique (dropna s)) of
        Inl e \<Rightarrow> Some (Inl e)
      | Inr owners \<Rightarrow>
          (case extend_colors (css4_colors L) (length owners) (tableau_colors L) of
             None \<Rightarrow> None
           | Some colors \<Rightarrow> Some (Inr (zip owners colors))))"

definition icon_shapes :: "string list" where
  "icon_shapes = [''circle'', ''triangle'', ''square'', ''star'', ''diamond'']"

definition make_instr_icon_map :: "series \<Rightarrow> error + (cell \<times> string) list" where
  "make_instr_icon_map s =
     (case py_sorted (unique (dropna s)) of
        Inl e \<Rightarrow> Inl e
      | Inr instr_classes \<Rightarrow>
          Inr (map (\<lambda>(i, instr). (instr, icon_shapes ! (i mod length icon_shapes)))
                 (enumerate 0 instr_classes)))"

text \<open>\<open>d.get(k, default)\<close> on such a dictionary.\<close>

definition dict_get :: "(cell \<times> 'v) list \<Rightarrow> cell \<Rightarrow> 'v \<Rightarrow> 'v" where
  "dict_get d k dflt =
     (case find (\<lambda>kv. py_eq (fst kv) k) d of None \<Rightarrow> dflt | Some kv \<Rightarrow> snd kv)"

text \<open>
  Two dictionaries built in the same order are the same when, entry by entry, the keys
  are equal by \<open>==\<close> and the values are equal.
\<close>

definition same_map :: "(cell \<times> 'v) list \<Rightarrow> (cell \<times> 'v) list \<Rightarrow> bool" where
  "same_map d d' = list_all2 (\<lambda>p q. py_eq (fst p) (fst q) \<and> snd p = snd q) d d'"

text \<open>
  The arguments of the renderer, the map it builds (title and legend are kept as data,
  not as the HTML text made from them), the files it writes and the lines it prints.
\<close>

record plot_args =
  lat_col :: string
  lon_col :: string
  owner_col :: string
  instr_col :: string
  popup_cols :: "string list"
  map_title :: string
  zoom_start :: int
  save_html_path :: "string option"
  save_geojson_path :: string
  background :: string

datatype 'f marker =
    CircleMarker "'f \<times> 'f" string string
  | RegularPolygonMarker "'f \<times> 'f" nat string string

record 'f folium_map =
  location :: "'f \<times> 'f"
  zoom :: int
  tiles :: string
  markers :: "'f marker list"
  title :: string
  legend_owners :: "(cell \<times> string) list"
  legend_instr :: "(cell \<times> string) list"

datatype 'f file_content =
    GeoJSON "(('f \<times> 'f) \<times> row) list"
  | HTML "'f folium_map"

datatype msg =
    ErrNoData
  | ErrMissingLatLon
  | MsgCreating nat
  | MsgGeoJSONSaved string
  | MsgHTMLSaved string
  | MsgMapReady

record 'f world =
  files :: "(string \<times> 'f file_content) list"
  stdout :: "msg list"

definition print :: "msg \<Rightarrow> 'f world \<Rightarrow> 'f world" where
  "print m w = w\<lparr>stdout := stdout w @ [m]\<rparr>"

definition write_file :: "string \<Rightarrow> 'f file_content \<Rightarrow> 'f world \<Rightarrow> 'f world" where
  "write_file path content w = w\<lparr>files := AList.update path content (files w)\<rparr>"

text \<open>\<open>df[c].astype(float)\<close>: ValueError when some element does not convert.\<close>

fun astype_float :: "'f libs \<Rightarrow> series \<Rightarrow> error + 'f list" where
  "astype_float L [] = Inr []"
| "astype_float L (x # xs) =
     (case to_float L x of
        None \<Rightarrow> Inl ValueError
      | Some v \<Rightarrow> (case astype_float L xs of Inl e \<Rightarrow> Inl e | Inr vs \<Rightarrow> Inr (v # vs)))"

fun join :: "string \<Rightarrow> string list \<Rightarrow> string" where
  "join sep [] = []"
| "join sep [x] = x"
| "join sep (x # y # ys) = x @ sep @ join sep (y # ys)"

text \<open>The body of the loop over the rows (lines 226 to 250): the marker of one row.\<close>

definition number_of_sides :: "string \<Rightarrow> nat" where
  "number_of_sides shape =
     (case map_of [(''triangle'', 3), (''square'', 4), (''star'', 5), (''diamond'', 4)] shape of
        None \<Rightarrow> 4
      | Some n \<Rightarrow> n)"

definition make_marker ::
  "'f libs \<Rightarrow> plot_args \<Rightarrow> string list \<Rightarrow> (cell \<times> string) list \<Rightarrow> (cell \<times> string) list
     \<Rightarrow> row \<Rightarrow> error + 'f marker" where
  "make_marker L a columns owner_color_map instr_icon_map r =
     (case (row_cell r (lat_col a), row_cell r (lon_col a)) of
        (Some lat_cell, Some lon_cell) \<Rightarrow>
          (case (to_float L lat_cell, to_float L lon_cell) of
             (Some lat, Some lon) \<Rightarrow>
               (let owner = (case row_cell r (owner_col a) of None \<Rightarrow> CStr ''Unknown'' | Some x \<Rightarrow> x);
                    instr = (case row_cell r (instr_col a) of None \<Rightarrow> CStr ''Unknown'' | Some x \<Rightarrow> x);
                    popup_text = join ''<br>''
                      (map (\<lambda>col. ''<b>'' @ col @ '':</b> ''
                               @ (case row_cell r col of None \<Rightarrow> [] | Some x \<Rightarrow> py_str x))
                         (filter (\<lambda>col. col \<in> set columns) (popup_cols a)));
                    color = dict_get owner_color_map owner ''gray'';
                    shape = dict_get instr_icon_map instr ''circle''
                in if shape = ''circle'' then Inr (CircleMarker (lat, lon) color popup_text)
                   else Inr (RegularPolygonMarker (lat, lon) (number_of_sides shape) color
                               popup_text))
           | _ \<Rightarrow> Inl ValueError)
      | _ \<Rightarrow> Inl (KeyError (lat_col a)))"

fun make_markers ::
  "'f libs \<Rightarrow> plot_args \<Rightarrow> string list \<Rightarrow> (cell \<times> string) list \<Rightarrow> (cell \<times> string) list
     \<Rightarrow> row list \<Rightarrow> error + 'f marker list" where
  "make_markers L a columns ocm iim [] = Inr []"
| "make_markers L a columns ocm iim (r # rs) =
     (case make_marker L a columns ocm iim r of
        Inl e \<Rightarrow> Inl e
      | Inr m \<Rightarrow>
          (case make_markers L a columns ocm iim rs of
             Inl e \<Rightarrow> Inl e
           | Inr ms \<Rightarrow> Inr (m # ms)))"

text \<open>
  Lines 208 to 287 without the prints and the writes: the maps, the centre, the markers
  and the features of the GeoJSON export. \<open>None\<close> when the palette loop does not end.
\<close>

definition build_map ::
  "'f libs \<Rightarrow> plot_args \<Rightarrow> dataframe
     \<Rightarrow> (error + 'f folium_map \<times> (('f \<times> 'f) \<times> row) list) option" where
  "build_map L a df =
     (case map_of (df_cols df) (owner_col a) of
        None \<Rightarrow> Some (Inl (KeyError (owner_col a)))
      | Some owner_series \<Rightarrow>
     (case make_owner_color_map L owner_series of
        None \<Rightarrow> None
      | Some (Inl e) \<Rightarrow> Some (Inl e)
      | Some (Inr owner_color_map) \<Rightarrow>
     (case map_of (df_cols df) (instr_col a) of
        None \<Rightarrow> Some (Inl (KeyError (instr_col a)))
      | Some instr_series \<Rightarrow>
     (case make_instr_icon_map instr_series of
        Inl e \<Rightarrow> Some (Inl e)
      | Inr instr_icon_map \<Rightarrow>
     (case (map_of (df_cols df) (lat_col a), map_of (df_cols df) (lon_col a)) of
        (Some lat_series, Some lon_series) \<Rightarrow>
          (case (astype_float L lat_series, astype_float L lon_series) of
             (Inr lats, Inr lons) \<Rightarrow>
               (case make_markers L a (map fst (df_cols df)) owner_color_map instr_icon_map
                       (df_rows df) of
                  Inl e \<Rightarrow> Some (Inl e)
                | Inr ms \<Rightarrow>
                    Some (Inr
                      (\<lparr>location = (float_mean L lats, float_mean L lons),
                        zoom = zoom_start a,
                        tiles = background a,
                        markers = ms,
                        title = map_title a,
                        legend_owners = owner_color_map,
                        legend_instr = instr_icon_map\<rparr>,
                       zip (zip lons lats) (df_rows df))))
           | _ \<Rightarrow> Some (Inl ValueError))
      | _ \<Rightarrow> Some (Inl (KeyError (lat_col a))))))))"

text \<open>
  \<open>plot_insar_points_interactive\<close>. It only reads its table, so it takes the table
  itself; the state is the files written and the lines printed.
\<close>

definition plot_insar_points_interactive ::
  "'f libs \<Rightarrow> plot_args \<Rightarrow> dataframe \<Rightarrow> 'f world
     \<Rightarrow> ((error + 'f folium_map option) \<times> 'f world) option" where
  "plot_insar_points_interactive L a df w =
     (if df_empty df then Some (Inr None, print ErrNoData w)
      else if \<not> has_col df (lat_col a) \<or> \<not> has_col df (lon_col a)
        then Some (Inr None, print ErrMissingLatLon w)
      else
        (let w1 = print (MsgCreating (nrows df)) w
         in case build_map L a df of
              None \<Rightarrow> None
            | Some (Inl e) \<Rightarrow> Some (Inl e, w1)
            | Some (Inr (m, features)) \<Rightarrow>
                (let w2 = write_file (save_geojson_path a) (GeoJSON features) w1;
                     w3 = print (MsgGeoJSONSaved (save_geojson_path a)) w2;
                     w4 = (case save_html_path a of
                             None \<Rightarrow> w3
                           | Some path \<Rightarrow>
                               if path = [] then w3
                               else print (MsgHTMLSaved path) (write_file path (HTML m) w3))
                 in Some (Inr (Some m), print MsgMapReady w4))))"

section \<open>Example tables\<close>

text \<open>Small tables on which the theorems below are exercised.\<close>

definition T_sat :: dataframe where
  "T_sat =
     \<lparr>df_index = [1, 2, 3],
      df_cols = [(''satSys'', [CStr ''All'', CStr ''S1A,RS2'', CStr ''TSX'']),
                 (''owner'', [CStr ''TUD'', CStr ''KNMI'', CStr ''TUD''])]\<rparr>"


definition T_flags :: dataframe where
  "T_flags =
     \<lparr>df_index = [1, 2, 3, 4, 5],
      df_cols = [(''valid'', [CBool True, CBool True, CBool False, CBool True, CBool True]),
                 (''insarEnd'', [CInt 99999999, CInt 99999999, CInt 99999999,
                                 CInt 20201231, CInt 99999999]),
                 (''countryCode'', [CStr ''NLD'', CStr ''NLD'', CStr ''NLD'',
                                    CStr ''NLD'', CStr ''NLD''])]\<rparr>"

definition T_num :: dataframe where
  "T_num =
     \<lparr>df_index = [7],
      df_cols = [(''siteId'', [CStr ''HENGELO'']), (''lookDir'', [CInt 1])]\<rparr>"

text \<open>
  For the renderer: its default arguments, an instance of the library parameters (the
  Tableau palette, the first entries of the CSS4 palette, integers for floats) and a table
  whose second row has no owner.
\<close>

definition default_args :: plot_args where
  "default_args =
     \<lparr>lat_col = ''latitude'', lon_col = ''longitude'', owner_col = ''owner'',
      instr_col = ''instrClass'',
      popup_cols = [''siteId'', ''owner'', ''instrClass'', ''countryCode''],
      map_title = ''InSAR Target Locations'', zoom_start = 6, save_html_path = None,
      save_geojson_path = ''insar_points.geojson'', background = ''OpenStreetMap''\<rparr>"

definition L_demo :: "int libs" where
  "L_demo =
     \<lparr>tableau_colors = [''#1f77b4'', ''#ff7f0e'', ''#2ca02c'', ''#d62728'', ''#9467bd'',
                        ''#8c564b'', ''#e377c2'', ''#7f7f7f'', ''#bcbd22'', ''#17becf''],
      css4_colors = [''#F0F8FF'', ''#FAEBD7'', ''#00FFFF''],
      to_float = (\<lambda>c. case c of CInt i \<Rightarrow> Some i | _ \<Rightarrow> None),
      float_mean = (\<lambda>xs. sum_list xs div int (length xs))\<rparr>"

definition T_owner :: dataframe where
  "T_owner =
     \<lparr>df_index = [1, 2],
      df_cols = [(''latitude'', [CInt 52, CInt 51]),
                 (''longitude'', [CInt 4, CInt 5]),
                 (''owner'', [CStr ''TUD'', CNaN]),
                 (''instrClass'', [CStr ''CR'', CStr ''TR''])]\<rparr>"

definition T_norows :: dataframe where
  "T_norows =
     \<lparr>df_index = [],
      df_cols = [(''latitude'', []), (''longitude'', []), (''owner'', []),
                 (''instrClass'', [])]\<rparr>"

definition w_empty :: "'f world" where
  "w_empty = \<lparr>files = [], stdout = []\<rparr>"

section \<open>Boolean indexing\<close>


lemma select_Nil [simp]: "select [] xs = []" "select m [] = []"
  by (simp_all add: select_def)

lemma select_Cons [simp]:
  "select (b # m) (x # xs) = (if b then x # select m xs else select m xs)"
  by (simp add: select_def)


lemma select_map_pred: "select (map P xs) xs = filter P xs"
  by (induction xs) simp_all

lemma select_map: "select m (map f xs) = map f (select m xs)"
proof (induction m arbitrary: xs)
  case Nil
  show ?case by simp
next
  case (Cons b m)
  show ?case by (cases xs) (simp_all add: Cons.IH)
qed

lemma select_zip: "select m (zip xs ys) = zip (select m xs) (select m ys)"
proof (induction m arbitrary: xs ys)
  case Nil
  show ?case by simp
next
  case (Cons b m)
  show ?case
  proof (cases xs)
    case Nil
    then show ?thesis by simp
  next
    case xs: (Cons x xs')
    show ?thesis by (cases ys) (simp_all add: xs Cons.IH)
  qed
qed

lemma select_pred_on: "select (map P ks) xs = map snd (filter (\<lambda>kx. P (fst kx)) (zip ks xs))"
  by (simp add: select_def zip_map1 filter_map o_def case_prod_unfold)

lemma subseq_select: "subseq (select m xs) xs"
proof (induction m arbitrary: xs)
  case Nil
  show ?case by simp
next
  case (Cons b m)
  show ?case by (cases xs) (auto intro: Cons.IH list_emb_Cons)
qed

lemma length_select_le: "length (select m xs) \<le> length xs"
  using subseq_select [of m xs] by (rule list_emb_length)

lemma length_select_mask: "length (select m xs) \<le> length (filter id m)"
proof (induction m arbitrary: xs)
  case Nil
  show ?case by simp
next
  case (Cons b m)
  show ?case
  proof (cases xs)
    case Nil
    then show ?thesis by simp
  next
    case (Cons x xs')
    then show ?thesis using Cons.IH [of xs'] by simp
  qed
qed

lemma select_all_True: "\<forall>b \<in> set m. b \<Longrightarrow> length xs \<le> length m \<Longrightarrow> select m xs = xs"
proof (induction m arbitrary: xs)
  case Nil
  then show ?case by simp
next
  case (Cons b m)
  then show ?case by (cases xs) auto
qed

text \<open>Selecting again with the mask recomputed on the selected key column changes nothing.\<close>

lemma select_twice:
  "select (map P (select (map P ks) ks)) (select (map P ks) xs) = select (map P ks) xs"
proof (rule select_all_True)
  show "\<forall>b \<in> set (map P (select (map P ks) ks)). b"
    by (simp add: select_map_pred)
  have "length (select (map P ks) xs) \<le> length (filter id (map P ks))"
    by (rule length_select_mask)
  also have "\<dots> = length (filter P ks)"
    by (simp add: filter_map o_def)
  finally show "length (select (map P ks) xs) \<le> length (map P (select (map P ks) ks))"
    by (simp add: select_map_pred)
qed

lemma length_select_cong: "length xs = length ys \<Longrightarrow> length (select m xs) = length (select m ys)"
proof (induction m arbitrary: xs ys)
  case Nil
  show ?case by simp
next
  case (Cons b m)
  show ?case
  proof (cases xs)
    case Nil
    with Cons.prems show ?thesis by simp
  next
    case xs: (Cons x xs')
    with Cons.prems obtain y ys' where ys: "ys = y # ys'" "length xs' = length ys'"
      by (cases ys) auto
    show ?thesis using Cons.IH [OF ys(2)] by (simp add: xs ys)
  qed
qed

subsection \<open>Rows\<close>

lemma attach_col_select:
  "attach_col (c, select m s) (select m rs) = select m (attach_col (c, s) rs)"
  by (simp add: attach_col_def select_map select_zip)

lemma rows_select:
  "foldr attach_col (map (\<lambda>(c, s). (c, select m s)) cs) (select m rs)
     = select m (foldr attach_col cs rs)"
  by (induction cs) (auto simp: attach_col_select)

lemma df_rows_mask_rows: "df_rows (mask_rows d m) = select m (df_rows d)"
  by (simp add: df_rows_def mask_rows_def rows_select flip: select_map)

lemma length_attach_col:
  "length (snd cs) = length rs \<Longrightarrow> length (attach_col cs rs) = length rs"
  by (simp add: attach_col_def)

lemma length_rows:
  "list_all (\<lambda>cs. length (snd cs) = length rs) cs \<Longrightarrow> length (foldr attach_col cs rs) = length rs"
  by (induction cs) (simp_all add: length_attach_col)

lemma length_df_rows: "wf_df d \<Longrightarrow> length (df_rows d) = nrows d"
  by (simp add: wf_df_def df_rows_def nrows_def length_rows)




lemma cells_attach_col:
  assumes "length s = length rs"
  shows "map (\<lambda>r. row_cell r c) (attach_col (k, s) rs)
           = (if k = c then map Some s else map (\<lambda>r. row_cell r c) rs)"
proof -
  have fs: "map fst (zip s rs) = s" and sn: "map snd (zip s rs) = rs"
    using assms by simp_all
  show ?thesis
  proof (cases "k = c")
    case True
    have "map (\<lambda>r. row_cell r c) (attach_col (k, s) rs) = map Some (map fst (zip s rs))"
      by (simp add: attach_col_def row_cell_def True case_prod_unfold)
    then show ?thesis using True fs by simp
  next
    case False
    have "map (\<lambda>r. row_cell r c) (attach_col (k, s) rs)
            = map (\<lambda>r. row_cell r c) (map snd (zip s rs))"
      using False by (auto simp: attach_col_def row_cell_def)
    then show ?thesis using False sn by simp
  qed
qed

lemma cells_rows:
  "list_all (\<lambda>cs. length (snd cs) = length rs) cs \<Longrightarrow> map_of cs c = Some s \<Longrightarrow>
     map (\<lambda>r. row_cell r c) (foldr attach_col cs rs) = map Some s"
proof (induction cs)
  case Nil
  then show ?case by simp
next
  case (Cons a cs)
  obtain k t where a: "a = (k, t)" by (cases a)
  from Cons.prems have len: "length t = length (foldr attach_col cs rs)"
    by (simp add: a length_rows)
  have step: "map (\<lambda>r. row_cell r c) (foldr attach_col (a # cs) rs)
                = (if k = c then map Some t else map (\<lambda>r. row_cell r c) (foldr attach_col cs rs))"
    using cells_attach_col [OF len] by (simp add: a)
  show ?case
  proof (cases "k = c")
    case True
    with Cons.prems have "t = s" by (simp add: a)
    with step True show ?thesis by simp
  next
    case False
    with Cons.prems have "map_of cs c = Some s" "list_all (\<lambda>cs. length (snd cs) = length rs) cs"
      by (simp_all add: a)
    with Cons.IH step False show ?thesis by simp
  qed
qed

lemma cells_df_rows:
  "wf_df d \<Longrightarrow> map_of (df_cols d) c = Some s \<Longrightarrow> map (\<lambda>r. row_cell r c) (df_rows d) = map Some s"
  by (simp add: wf_df_def df_rows_def cells_rows)

lemma row_apply_attach_same:
  "row_apply c f (i, (c, x) # r) = (i, (c, f x) # r)"
  by (simp add: row_apply_def row_cell_def)

lemma row_apply_attach_other:
  "k \<noteq> c \<Longrightarrow> row_apply c f (i, (k, x) # r) = (i, (k, x) # snd (row_apply c f (i, r)))"
  by (simp add: row_apply_def row_cell_def split: option.splits)

lemma fst_row_apply [simp]: "fst (row_apply c f r) = fst r"
  by (simp add: row_apply_def split: option.splits)

lemma attach_col_apply_same:
  "attach_col (c, map f s) rs = map (row_apply c f) (attach_col (c, s) rs)"
  by (simp add: attach_col_def zip_map1 case_prod_unfold row_apply_attach_same)

lemma attach_col_apply_other:
  assumes "k \<noteq> c"
  shows "attach_col (k, s) (map (row_apply c f) rs) = map (row_apply c f) (attach_col (k, s) rs)"
proof -
  have "row_apply c f (i, (k, x) # r) = (fst (row_apply c f (i, r)), (k, x) # snd (row_apply c f (i, r)))"
    for i x r
    using assms by (simp add: row_apply_attach_other)
  then show ?thesis
    by (simp add: attach_col_def zip_map2 case_prod_unfold)
qed

lemma rows_set_col:
  "map_of cs c = Some s \<Longrightarrow>
     foldr attach_col (AList.update c (map f s) cs) rs = map (row_apply c f) (foldr attach_col cs rs)"
proof (induction cs)
  case Nil
  then show ?case by simp
next
  case (Cons a cs)
  obtain k t where a: "a = (k, t)" by (cases a)
  show ?case
  proof (cases "k = c")
    case True
    with Cons.prems have "t = s" by (simp add: a)
    with True show ?thesis by (simp add: a attach_col_apply_same)
  next
    case False
    with Cons.prems have "map_of cs c = Some s" by (simp add: a)
    with Cons.IH False show ?thesis by (simp add: a attach_col_apply_other)
  qed
qed

lemma df_rows_set_col:
  "map_of (df_cols d) c = Some s \<Longrightarrow>
     df_rows (set_col d c (map f s)) = map (row_apply c f) (df_rows d)"
  by (simp add: df_rows_def set_col_def rows_set_col)

lemma filter_update_key:
  "map_of al c = Some x \<Longrightarrow>
     filter (\<lambda>kv. fst kv \<noteq> c) (AList.update c v al) = filter (\<lambda>kv. fst kv \<noteq> c) al"
  by (induction al) (auto split: if_splits)

lemma row_without_apply [simp]: "row_without c (row_apply c f r) = row_without c r"
  by (simp add: row_without_def row_apply_def row_cell_def filter_update_key split: option.splits)


lemma row_cell_apply_other:
  "k \<noteq> c \<Longrightarrow> row_cell (row_apply c f r) k = row_cell r k"
  by (simp add: row_apply_def row_cell_def update_conv' split: option.splits)

text \<open>Rows kept by a mask computed from a column.\<close>

lemma df_rows_mask_pred:
  assumes "wf_df d" and "map_of (df_cols d) c = Some s"
  shows "df_rows (mask_rows d (map P s))
           = filter (\<lambda>r. \<exists>x. row_cell r c = Some x \<and> P x) (df_rows d)"
proof -
  have cells: "map (\<lambda>r. row_cell r c) (df_rows d) = map Some s"
    using assms by (rule cells_df_rows)
  have "map P s = map (\<lambda>y. case y of None \<Rightarrow> False | Some x \<Rightarrow> P x) (map Some s)"
    by simp
  also have "\<dots> = map (\<lambda>r. case row_cell r c of None \<Rightarrow> False | Some x \<Rightarrow> P x) (df_rows d)"
    by (simp add: cells [symmetric])
  finally have "select (map P s) (df_rows d)
      = filter (\<lambda>r. case row_cell r c of None \<Rightarrow> False | Some x \<Rightarrow> P x) (df_rows d)"
    by (simp add: select_map_pred)
  moreover have "(case row_cell r c of None \<Rightarrow> False | Some x \<Rightarrow> P x)
      = (\<exists>x. row_cell r c = Some x \<and> P x)" for r
    by (cases "row_cell r c") simp_all
  ultimately show ?thesis
    by (simp add: df_rows_mask_rows)
qed

subsection \<open>Strings\<close>

lemma str_in_sublist: "str_in t x = sublist t x"
  by (induction x) (simp_all add: sublist_Cons_right)

lemma list_ex_str_in: "list_ex (\<lambda>t. str_in t x) ts = (\<exists>t \<in> set ts. sublist t x)"
  by (simp add: list_ex_iff str_in_sublist)

lemma normalize_str_in:
  "\<exists>t \<in> set ts. sublist t x \<Longrightarrow> normalize_str ts x \<in> set ts \<and> sublist (normalize_str ts x) x"
  by (induction ts) (auto simp: str_in_sublist)


lemma series_apply_any_in_cast:
  "series_apply (any_in ts) (astype_str s)
     = Inr (map (\<lambda>x. list_ex (\<lambda>t. str_in t (py_str x)) ts) s)"
  by (induction s) (simp_all add: astype_str_def)

lemma series_apply_normalize_cast:
  "series_apply (normalize ts) (select m (astype_str s))
     = Inr (map (\<lambda>x. CStr (normalize_str ts (py_str x))) (select m s))"
proof -
  have "series_apply (normalize ts) (astype_str xs)
          = Inr (map (\<lambda>x. CStr (normalize_str ts (py_str x))) xs)" for xs
    by (induction xs) (simp_all add: astype_str_def)
  from this [of "select m s"] show ?thesis
    by (simp add: astype_str_def select_map)
qed

lemma str_contains_cast:
  "str_contains_nocase pat (astype_str s) = map (\<lambda>x. contains_nocase pat (py_str x)) s"
  by (simp add: str_contains_nocase_def astype_str_def)

lemma isin_cast: "isin (astype_str s) vals = map (\<lambda>x. py_str x \<in> set vals) s"
  by (auto simp: isin_def astype_str_def)

subsection \<open>What each filter does to the store\<close>

lemmas prog_defs = bindM_def ret_def raise_def lift_def deref_def alloc_def lookup_def
  df_copy_def df_getitem_def df_setitem_def df_getitem_mask_def

lemma map_of_set_col [simp]: "map_of (df_cols (set_col d c s)) c = Some s"
  by (simp add: set_col_def update_conv')

lemma map_of_mask_rows:
  "map_of (df_cols (mask_rows d m)) c = map_option (select m) (map_of (df_cols d) c)"
  by (simp add: mask_rows_def map_of_map)

lemma filter_valid_run:
  "r < length h \<Longrightarrow> filter_valid r h =
     (case map_of (df_cols (h ! r)) ''valid'' of
        None \<Rightarrow> (Inl (KeyError ''valid''), h @ [h ! r])
      | Some s \<Rightarrow>
          (Inr (Suc (length h)), h @ [h ! r, mask_rows (h ! r) (series_eq s (CBool True))]))"
  by (simp add: filter_valid_def prog_defs nth_append split: option.splits)

lemma filter_active_run:
  "r < length h \<Longrightarrow> filter_active r h =
     (case map_of (df_cols (h ! r)) ''insarEnd'' of
        None \<Rightarrow> (Inl (KeyError ''insarEnd''), h @ [h ! r])
      | Some s \<Rightarrow>
          (Inr (Suc (length h)), h @ [h ! r, mask_rows (h ! r) (series_eq s (CInt 99999999))]))"
  by (simp add: filter_active_def prog_defs nth_append split: option.splits)

lemma filter_country_run:
  "r < length h \<Longrightarrow> filter_country r vals h =
     (case map_of (df_cols (h ! r)) ''countryCode'' of
        None \<Rightarrow> (Inl (KeyError ''countryCode''), h @ [h ! r])
      | Some s \<Rightarrow> (Inr (Suc (length h)), h @ [h ! r, mask_rows (h ! r) (isin s vals)]))"
  by (simp add: filter_country_def prog_defs nth_append split: option.splits)

lemma filter_owner_run:
  "r < length h \<Longrightarrow> filter_owner r vals h =
     (case map_of (df_cols (h ! r)) ''owner'' of
        None \<Rightarrow> (Inl (KeyError ''owner''), h @ [h ! r])
      | Some s \<Rightarrow> (Inr (Suc (length h)), h @ [h ! r, mask_rows (h ! r) (isin s vals)]))"
  by (simp add: filter_owner_def prog_defs nth_append split: option.splits)

lemma filter_siteId_run:
  "r < length h \<Longrightarrow> filter_siteId r vals h =
     (case map_of (df_cols (h ! r)) ''siteId'' of
        None \<Rightarrow> (Inl (KeyError ''siteId''), h @ [h ! r])
      | Some s \<Rightarrow> (Inr (Suc (length h)), h @ [h ! r, mask_rows (h ! r) (isin s vals)]))"
  by (simp add: filter_siteId_def prog_defs nth_append split: option.splits)

lemma filter_lookDir_run:
  "r < length h \<Longrightarrow> filter_lookDir r ds h =
     (case map_of (df_cols (h ! r)) ''lookDir'' of
        None \<Rightarrow> (Inl (KeyError ''lookDir''), h @ [h ! r, h ! r])
      | Some s \<Rightarrow>
          (Inr (Suc (Suc (length h))),
           h @ [h ! r, set_col (h ! r) ''lookDir'' (astype_str s),
                mask_rows (set_col (h ! r) ''lookDir'' (astype_str s))
                  (map (\<lambda>x. list_ex (\<lambda>t. str_in t (py_str x)) ds) s)]))"
  by (simp add: filter_lookDir_def prog_defs nth_append list_update_append
      series_apply_any_in_cast split: option.splits)

lemma filter_satSys_run:
  "r < length h \<Longrightarrow> filter_satSys r sats h =
     (case map_of (df_cols (h ! r)) ''satSys'' of
        None \<Rightarrow> (Inl (KeyError ''satSys''), h @ [h ! r, h ! r])
      | Some s \<Rightarrow>
          (Inr (Suc (Suc (length h))),
           h @ [h ! r, set_col (h ! r) ''satSys'' (astype_str s),
                mask_rows (set_col (h ! r) ''satSys'' (astype_str s))
                  (map (\<lambda>x. contains_nocase ''All'' (py_str x)
                           \<or> list_ex (\<lambda>t. str_in t (py_str x)) sats) s)]))"
  by (simp add: filter_satSys_def prog_defs nth_append list_update_append
      series_apply_any_in_cast str_contains_cast zip_map_map zip_same_conv_map o_def
      split: option.splits)

lemma filter_instrClass_strict_run:
  "r < length h \<Longrightarrow> filter_instrClass r types True h =
     (case map_of (df_cols (h ! r)) ''instrClass'' of
        None \<Rightarrow> (Inl (KeyError ''instrClass''), h @ [h ! r, h ! r])
      | Some s \<Rightarrow>
          (Inr (Suc (Suc (length h))),
           h @ [h ! r, set_col (h ! r) ''instrClass'' (astype_str s),
                mask_rows (set_col (h ! r) ''instrClass'' (astype_str s))
                  (map (\<lambda>x. py_str x \<in> set types) s)]))"
  by (simp add: filter_instrClass_def prog_defs nth_append list_update_append
      isin_cast split: option.splits)

lemma filter_instrClass_nonstrict_run:
  "r < length h \<Longrightarrow> filter_instrClass r types False h =
     (case map_of (df_cols (h ! r)) ''instrClass'' of
        None \<Rightarrow> (Inl (KeyError ''instrClass''), h @ [h ! r, h ! r])
      | Some s \<Rightarrow>
          (let msk = map (\<lambda>x. list_ex (\<lambda>t. str_in t (py_str x)) types) s;
               kept = mask_rows (set_col (h ! r) ''instrClass'' (astype_str s)) msk
           in (Inr (Suc (Suc (Suc (length h)))),
               h @ [h ! r, set_col (h ! r) ''instrClass'' (astype_str s), kept,
                    set_col kept ''instrClass''
                      (map (\<lambda>x. CStr (normalize_str types (py_str x))) (select msk s))])))"
  by (simp add: filter_instrClass_def prog_defs nth_append list_update_append Let_def
      series_apply_any_in_cast map_of_mask_rows series_apply_normalize_cast
      split: option.splits)

lemma apply_filter_no_object: "\<not> r < length h \<Longrightarrow> apply_filter F r h = (Inl NoObject, h)"
  by (cases F)
    (simp_all add: filter_valid_def filter_country_def filter_active_def filter_satSys_def
      filter_instrClass_def filter_owner_def filter_siteId_def filter_lookDir_def prog_defs)

subsection \<open>The table a filter returns\<close>

lemma map_update_values:
  "map (\<lambda>(k, v). (k, g v)) (AList.update c v0 al) = AList.update c (g v0) (map (\<lambda>(k, v). (k, g v)) al)"
  by (induction al) auto

lemma mask_rows_set_col:
  "mask_rows (set_col d c s) m = set_col (mask_rows d m) c (select m s)"
  by (simp add: mask_rows_def set_col_def map_update_values)

lemma set_col_twice [simp]: "set_col (set_col d c s) c s' = set_col d c s'"
  by (simp add: set_col_def)

lemma set_col_same: "map_of (df_cols d) c = Some s \<Longrightarrow> set_col d c s = d"
  by (simp add: set_col_def update_triv)


lemma returned_plain:
  assumes "map_of (df_cols T) (filter_column F) = Some s" and "\<And>x. cell_out F x = x"
  shows "returned F T s = mask_rows T (map (cell_test F) s)"
proof -
  have "map_of (df_cols (mask_rows T (map (cell_test F) s))) (filter_column F)
          = Some (select (map (cell_test F) s) s)"
    using assms(1) by (simp add: map_of_mask_rows)
  moreover have "map (cell_out F) xs = xs" for xs
    by (rule map_idI) (rule assms(2))
  ultimately show ?thesis
    by (simp add: returned_def set_col_same)
qed

lemma cell_test_fun:
  "cell_test Valid = (\<lambda>x. py_eq x (CBool True))"
  "cell_test Active = (\<lambda>x. py_eq x (CInt 99999999))"
  "cell_test (Country vals) = (\<lambda>x. x \<in> set (map CStr vals))"
  "cell_test (Owner vals) = (\<lambda>x. x \<in> set (map CStr vals))"
  "cell_test (SiteId vals) = (\<lambda>x. x \<in> set (map CStr vals))"
  "cell_test (SatSys ts) =
     (\<lambda>x. contains_nocase ''All'' (py_str x) \<or> list_ex (\<lambda>t. str_in t (py_str x)) ts)"
  "cell_test (LookDir ts) = (\<lambda>x. list_ex (\<lambda>t. str_in t (py_str x)) ts)"
  "cell_test (InstrClass ts True) = (\<lambda>x. py_str x \<in> set ts)"
  "cell_test (InstrClass ts False) = (\<lambda>x. list_ex (\<lambda>t. str_in t (py_str x)) ts)"
  by (simp_all add: fun_eq_iff)

lemma cell_out_fun:
  "cell_out (SatSys ts) = (\<lambda>x. CStr (py_str x))"
  "cell_out (LookDir ts) = (\<lambda>x. CStr (py_str x))"
  "cell_out (InstrClass ts True) = (\<lambda>x. CStr (py_str x))"
  "cell_out (InstrClass ts False) = (\<lambda>x. CStr (normalize_str ts (py_str x)))"
  by (simp_all add: fun_eq_iff)

lemma call_filter_cols:
  "call_filter F T =
     (case map_of (df_cols T) (filter_column F) of
        None \<Rightarrow> Inl (KeyError (filter_column F))
      | Some s \<Rightarrow> Inr (returned F T s))"
proof (cases "map_of (df_cols T) (filter_column F)")
  case None
  show ?thesis
  proof (cases F)
    case (InstrClass types strict)
    with None show ?thesis
      by (cases strict)
        (simp_all add: call_filter_def filter_instrClass_strict_run
          filter_instrClass_nonstrict_run)
  qed (use None in \<open>simp_all add: call_filter_def filter_valid_run filter_country_run
        filter_active_run filter_satSys_run filter_owner_run filter_siteId_run
        filter_lookDir_run\<close>)
next
  case (Some s)
  note plain = returned_plain [OF Some]
  show ?thesis
  proof (cases F)
    case Valid
    with Some plain show ?thesis
      by (simp add: call_filter_def filter_valid_run lookup_def series_eq_def cell_test_fun)
  next
    case (Country vals)
    with Some plain show ?thesis
      by (simp add: call_filter_def filter_country_run lookup_def isin_def cell_test_fun)
  next
    case Active
    with Some plain show ?thesis
      by (simp add: call_filter_def filter_active_run lookup_def series_eq_def cell_test_fun)
  next
    case (SatSys sats)
    with Some show ?thesis
      by (simp add: call_filter_def filter_satSys_run lookup_def returned_def
          mask_rows_set_col astype_str_def select_map cell_test_fun cell_out_fun)
  next
    case (InstrClass types strict)
    with Some show ?thesis
      by (cases strict)
        (simp_all add: call_filter_def filter_instrClass_strict_run
          filter_instrClass_nonstrict_run lookup_def returned_def mask_rows_set_col
          astype_str_def select_map Let_def cell_test_fun cell_out_fun)
  next
    case (Owner vals)
    with Some plain show ?thesis
      by (simp add: call_filter_def filter_owner_run lookup_def isin_def cell_test_fun)
  next
    case (SiteId vals)
    with Some plain show ?thesis
      by (simp add: call_filter_def filter_siteId_run lookup_def isin_def cell_test_fun)
  next
    case (LookDir ds)
    with Some show ?thesis
      by (simp add: call_filter_def filter_lookDir_run lookup_def returned_def
          mask_rows_set_col astype_str_def select_map cell_test_fun cell_out_fun)
  qed
qed

lemma selects_only_out: "selects_only F \<Longrightarrow> cell_out F x = x"
  by (cases F) simp_all

lemma returned_selects_only:
  "selects_only F \<Longrightarrow> map_of (df_cols T) (filter_column F) = Some s \<Longrightarrow>
     returned F T s = mask_rows T (map (cell_test F) s)"
  by (rule returned_plain) (simp_all add: selects_only_out)

lemma call_filter_InrD:
  "call_filter F T = Inr A \<Longrightarrow>
     \<exists>s. map_of (df_cols T) (filter_column F) = Some s \<and> A = returned F T s"
  by (auto simp: call_filter_cols split: option.splits)

lemma has_col_map_of: "has_col T c \<longleftrightarrow> (\<exists>s. map_of (df_cols T) c = Some s)"
proof -
  have "has_col T c \<longleftrightarrow> c \<in> dom (map_of (df_cols T))"
    by (simp add: has_col_def dom_map_of_conv_image_fst)
  then show ?thesis by auto
qed

lemma call_filter_total: "has_col T (filter_column F) \<Longrightarrow> \<exists>A. call_filter F T = Inr A"
  by (auto simp: has_col_map_of call_filter_cols)

lemma nrows_returned: "nrows (returned F T s) \<le> nrows T"
  by (simp add: returned_def nrows_def set_col_def mask_rows_def length_select_le)


subsection \<open>Applying a selecting filter twice\<close>

lemma mask_rows_twice:
  "mask_rows (mask_rows T (map P s)) (map P (select (map P s) s)) = mask_rows T (map P s)"
proof -
  have "map (\<lambda>(c, xs). (c, select (map P (select (map P s) s)) xs))
          (map (\<lambda>(c, xs). (c, select (map P s) xs)) cs)
        = map (\<lambda>(c, xs). (c, select (map P s) xs)) cs" for cs :: "(string \<times> series) list"
    by (induction cs) (auto simp: select_twice)
  then show ?thesis
    by (simp add: mask_rows_def select_twice)
qed

lemma call_filter_twice:
  assumes "selects_only F" and "call_filter F T = Inr A"
  shows "call_filter F A = Inr A"
proof -
  from assms(2) obtain s where s: "map_of (df_cols T) (filter_column F) = Some s"
    and "A = returned F T s"
    using call_filter_InrD by blast
  then have A: "A = mask_rows T (map (cell_test F) s)"
    using assms(1) by (simp add: returned_selects_only)
  have col: "map_of (df_cols A) (filter_column F) = Some (select (map (cell_test F) s) s)"
    by (simp add: A map_of_mask_rows s)
  have "call_filter F A = Inr (returned F A (select (map (cell_test F) s) s))"
    by (simp add: call_filter_cols col)
  also have "returned F A (select (map (cell_test F) s) s)
               = mask_rows A (map (cell_test F) (select (map (cell_test F) s) s))"
    using assms(1) col by (rule returned_selects_only)
  also have "\<dots> = A"
    unfolding A by (rule mask_rows_twice)
  finally show ?thesis .
qed

subsection \<open>The rows a filter returns\<close>

lemma wf_mask_rows:
  assumes "wf_df d"
  shows "wf_df (mask_rows d m)"
proof -
  have "length (select m (snd cs)) = length (select m (df_index d))"
    if "cs \<in> set (df_cols d)" for cs
  proof (rule length_select_cong)
    from assms that show "length (snd cs) = length (df_index d)"
      by (simp add: wf_df_def list_all_iff)
  qed
  then show ?thesis
    by (simp add: wf_df_def mask_rows_def list_all_iff case_prod_unfold)
qed

lemma wf_set_col:
  "wf_df d \<Longrightarrow> length s = length (df_index d) \<Longrightarrow> wf_df (set_col d c s)"
proof -
  have "list_all Q al \<Longrightarrow> Q (c, s) \<Longrightarrow> list_all Q (AList.update c s al)"
    for Q and al :: "(string \<times> series) list"
    by (induction al) auto
  then show "wf_df d \<Longrightarrow> length s = length (df_index d) \<Longrightarrow> wf_df (set_col d c s)"
    by (simp add: wf_df_def set_col_def)
qed

lemma wf_returned:
  assumes "wf_df T" and "map_of (df_cols T) (filter_column F) = Some s"
  shows "wf_df (returned F T s)"
proof -
  have "(filter_column F, s) \<in> set (df_cols T)"
    using assms(2) by (rule map_of_SomeD)
  with assms(1) have "length s = length (df_index T)"
    by (auto simp: wf_df_def list_all_iff)
  then have "length (select (map (cell_test F) s) s)
               = length (select (map (cell_test F) s) (df_index T))"
    by (rule length_select_cong)
  then have "length (select (map (cell_test F) s) s)
               = length (df_index (mask_rows T (map (cell_test F) s)))"
    by (simp add: mask_rows_def)
  then have "length (map (cell_out F) (select (map (cell_test F) s) s))
               = length (df_index (mask_rows T (map (cell_test F) s)))"
    by simp
  with assms(1) show ?thesis
    unfolding returned_def by (intro wf_set_col wf_mask_rows)
qed

lemma df_rows_returned:
  assumes "wf_df T" and "map_of (df_cols T) (filter_column F) = Some s"
  shows "df_rows (returned F T s)
           = map (row_apply (filter_column F) (cell_out F))
               (filter (\<lambda>r. \<exists>x. row_cell r (filter_column F) = Some x \<and> cell_test F x) (df_rows T))"
proof -
  have "map_of (df_cols (mask_rows T (map (cell_test F) s))) (filter_column F)
          = Some (select (map (cell_test F) s) s)"
    by (simp add: map_of_mask_rows assms(2))
  then have "df_rows (returned F T s)
      = map (row_apply (filter_column F) (cell_out F)) (df_rows (mask_rows T (map (cell_test F) s)))"
    unfolding returned_def by (rule df_rows_set_col)
  with assms show ?thesis
    by (simp add: df_rows_mask_pred)
qed

lemma df_rows_call_filter:
  assumes "wf_df T" and "call_filter F T = Inr A"
  shows "df_rows A
           = map (row_apply (filter_column F) (cell_out F))
               (filter (\<lambda>r. \<exists>x. row_cell r (filter_column F) = Some x \<and> cell_test F x) (df_rows T))"
    and "wf_df A"
  using assms call_filter_InrD [OF assms(2)] by (auto simp: df_rows_returned wf_returned)


lemma row_apply_fixed: "row_cell r c = Some x \<Longrightarrow> f x = x \<Longrightarrow> row_apply c f r = r"
  by (cases r) (simp add: row_apply_def row_cell_def update_triv)

subsection \<open>The store after a filter\<close>

lemma lookup_append_old: "r < length h \<Longrightarrow> lookup (h @ ys) r = lookup h r"
  by (simp add: lookup_def nth_append)

lemma apply_filter_store:
  assumes "r < length h"
  shows "\<exists>ys. snd (apply_filter F r h) = h @ ys \<and>
          (case fst (apply_filter F r h) of
             Inl e \<Rightarrow> call_filter F (h ! r) = Inl e
           | Inr r' \<Rightarrow> length h \<le> r' \<and> r' < length (h @ ys)
                \<and> call_filter F (h ! r) = Inr ((h @ ys) ! r'))"
proof (cases F)
  case Valid
  with assms show ?thesis
    by (simp add: call_filter_def filter_valid_run lookup_def nth_append split: option.splits)
next
  case (Country vals)
  with assms show ?thesis
    by (simp add: call_filter_def filter_country_run lookup_def nth_append split: option.splits)
next
  case Active
  with assms show ?thesis
    by (simp add: call_filter_def filter_active_run lookup_def nth_append split: option.splits)
next
  case (SatSys sats)
  with assms show ?thesis
    by (simp add: call_filter_def filter_satSys_run lookup_def nth_append split: option.splits)
next
  case (InstrClass types strict)
  with assms show ?thesis
    by (cases strict)
      (simp_all add: call_filter_def filter_instrClass_strict_run
        filter_instrClass_nonstrict_run lookup_def nth_append Let_def split: option.splits)
next
  case (Owner vals)
  with assms show ?thesis
    by (simp add: call_filter_def filter_owner_run lookup_def nth_append split: option.splits)
next
  case (SiteId vals)
  with assms show ?thesis
    by (simp add: call_filter_def filter_siteId_run lookup_def nth_append split: option.splits)
next
  case (LookDir ds)
  with assms show ?thesis
    by (simp add: call_filter_def filter_lookDir_run lookup_def nth_append split: option.splits)
qed

lemma apply_filter_frame:
  assumes "lookup h r = Some T" and "apply_filter F r h = (res, h')"
  shows "\<forall>r0. lookup h r0 \<noteq> None \<longrightarrow> lookup h' r0 = lookup h r0"
    and "\<forall>r'. res = Inr r' \<longrightarrow>
           lookup h r' = None \<and> (\<exists>A. lookup h' r' = Some A \<and> call_filter F T = Inr A)"
proof -
  from assms(1) have r: "r < length h" and T: "T = h ! r"
    by (simp_all add: lookup_def split: if_splits)
  from apply_filter_store [OF r, of F] assms(2) obtain ys where h': "h' = h @ ys"
    and res: "case res of
             Inl e \<Rightarrow> call_filter F (h ! r) = Inl e
           | Inr r' \<Rightarrow> length h \<le> r' \<and> r' < length (h @ ys)
                \<and> call_filter F (h ! r) = Inr ((h @ ys) ! r')"
    by auto
  show "\<forall>r0. lookup h r0 \<noteq> None \<longrightarrow> lookup h' r0 = lookup h r0"
    by (simp add: h' lookup_def nth_append)
  show "\<forall>r'. res = Inr r' \<longrightarrow>
           lookup h r' = None \<and> (\<exists>A. lookup h' r' = Some A \<and> call_filter F T = Inr A)"
    using res by (auto simp: h' T lookup_def)
qed

lemmas eval_defs = call_filter_cols returned_def mask_rows_def set_col_def select_def
  contains_nocase_def lower_ascii_def nrows_def has_col_def wf_df_def df_rows_def attach_col_def

section \<open>Properties of the filters\<close>

text \<open>
  C1. For every filter and every table \<open>T\<close>, the table the filter returns has at most as
  many rows as \<open>T\<close>: no filter adds rows.
\<close>

theorem filters_never_add_rows:
  assumes "call_filter F T = Inr A"
  shows "nrows A \<le> nrows T"
proof -
  from assms obtain s where "A = returned F T s"
    using call_filter_InrD by blast
  then show ?thesis
    by (simp add: nrows_returned)
qed

theorem filters_never_add_rows_witness:
  "call_filter (SatSys [''S1A'']) T_sat =
     Inr \<lparr>df_index = [1, 2],
          df_cols = [(''satSys'', [CStr ''All'', CStr ''S1A,RS2'']),
                     (''owner'', [CStr ''TUD'', CStr ''KNMI''])]\<rparr>
   \<and> nrows \<lparr>df_index = [1, 2],
          df_cols = [(''satSys'', [CStr ''All'', CStr ''S1A,RS2'']),
                     (''owner'', [CStr ''TUD'', CStr ''KNMI''])]\<rparr> \<le> nrows T_sat"
proof -
  have run: "call_filter (SatSys [''S1A'']) T_sat =
     Inr \<lparr>df_index = [1, 2],
          df_cols = [(''satSys'', [CStr ''All'', CStr ''S1A,RS2'']),
                     (''owner'', [CStr ''TUD'', CStr ''KNMI''])]\<rparr>"
    by (simp add: eval_defs T_sat_def)
  from run filters_never_add_rows [OF run] show ?thesis ..
qed

text \<open>
  C6. The valid, country, active, owner and site-id filters are idempotent: applied to
  its own result, with the same caller-supplied list, each returns that result again.
\<close>

theorem selecting_filters_idempotent:
  assumes "F = Valid \<or> F = Active \<or> F = Country vals \<or> F = Owner vals \<or> F = SiteId vals"
    and "call_filter F T = Inr A"
  shows "call_filter F A = Inr A"
proof -
  from assms(1) have "selects_only F" by auto
  then show ?thesis using assms(2) by (rule call_filter_twice)
qed

theorem selecting_filters_idempotent_witness:
  "call_filter Active T_flags =
     Inr \<lparr>df_index = [1, 2, 3, 5],
          df_cols = [(''valid'', [CBool True, CBool True, CBool False, CBool True]),
                     (''insarEnd'', [CInt 99999999, CInt 99999999, CInt 99999999, CInt 99999999]),
                     (''countryCode'', [CStr ''NLD'', CStr ''NLD'', CStr ''NLD'', CStr ''NLD''])]\<rparr>
   \<and> call_filter Active
        \<lparr>df_index = [1, 2, 3, 5],
          df_cols = [(''valid'', [CBool True, CBool True, CBool False, CBool True]),
                     (''insarEnd'', [CInt 99999999, CInt 99999999, CInt 99999999, CInt 99999999]),
                     (''countryCode'', [CStr ''NLD'', CStr ''NLD'', CStr ''NLD'', CStr ''NLD''])]\<rparr>
     = Inr \<lparr>df_index = [1, 2, 3, 5],
          df_cols = [(''valid'', [CBool True, CBool True, CBool False, CBool True]),
                     (''insarEnd'', [CInt 99999999, CInt 99999999, CInt 99999999, CInt 99999999]),
                     (''countryCode'', [CStr ''NLD'', CStr ''NLD'', CStr ''NLD'', CStr ''NLD''])]\<rparr>"
proof -
  have run: "call_filter Active T_flags =
     Inr \<lparr>df_index = [1, 2, 3, 5],
          df_cols = [(''valid'', [CBool True, CBool True, CBool False, CBool True]),
                     (''insarEnd'', [CInt 99999999, CInt 99999999, CInt 99999999, CInt 99999999]),
                     (''countryCode'', [CStr ''NLD'', CStr ''NLD'', CStr ''NLD'', CStr ''NLD''])]\<rparr>"
    by (simp add: eval_defs T_flags_def)
  have "Active = Valid \<or> Active = Active \<or> Active = Country [] \<or> Active = Owner []
          \<or> Active = SiteId []"
    by simp
  from run selecting_filters_idempotent [OF this run] show ?thesis ..
qed







text \<open>
  C7, as stated, fails. The claim lets only the non-strict instrument-class filter change a
  value; but the satellite-system, look-direction and instrument-class filters all return
  their column as converted by \<open>astype(str)\<close>. With look direction \<open>1\<close> (an integer)
  and the requested direction \<open>'1'\<close>, the row is kept and its look direction comes back
  as the string \<open>'1'\<close>.
\<close>

theorem filters_keep_values_counterexample:
  "call_filter (LookDir [''1'']) T_num =
     Inr \<lparr>df_index = [7],
          df_cols = [(''siteId'', [CStr ''HENGELO'']), (''lookDir'', [CStr ''1''])]\<rparr>
   \<and> df_rows T_num = [(7, [(''siteId'', CStr ''HENGELO''), (''lookDir'', CInt 1)])]
   \<and> df_rows \<lparr>df_index = [7],
          df_cols = [(''siteId'', [CStr ''HENGELO'']), (''lookDir'', [CStr ''1''])]\<rparr>
       = [(7, [(''siteId'', CStr ''HENGELO''), (''lookDir'', CStr ''1'')])]
   \<and> CStr ''1'' \<noteq> CInt 1"
  by (simp add: eval_defs T_num_def nat_digits.simps digit_char_def)

text \<open>
  C7, amended. No filter changes an object that was in the store before the call, so the
  input table is not mutated, and the table it returns is a new object. Every row of the
  returned table is a row of \<open>T\<close> in which at most the cell of the filter's own column
  differs: that cell is \<open>cell_out F\<close> of the original, which is the original itself for
  the valid, country, active, owner and site-id filters, and leaves a string as it is for
  every filter but the non-strict instrument-class filter.
\<close>

theorem filters_frame_and_values:
  assumes "lookup h r = Some T" and "apply_filter F r h = (res, h')"
  shows "(\<forall>r0. lookup h r0 \<noteq> None \<longrightarrow> lookup h' r0 = lookup h r0)
       \<and> (\<forall>r'. res = Inr r' \<longrightarrow>
             lookup h r' = None \<and> (\<exists>A. lookup h' r' = Some A \<and> call_filter F T = Inr A))
       \<and> (\<forall>A. wf_df T \<and> call_filter F T = Inr A \<longrightarrow>
             (\<forall>a \<in> set (df_rows A). \<exists>t \<in> set (df_rows T).
                 a = row_apply (filter_column F) (cell_out F) t))
       \<and> (selects_only F \<longrightarrow> (\<forall>x. cell_out F x = x))
       \<and> ((\<forall>types. F \<noteq> InstrClass types False) \<longrightarrow> (\<forall>v. cell_out F (CStr v) = CStr v))"
proof (intro conjI)
  show "\<forall>r0. lookup h r0 \<noteq> None \<longrightarrow> lookup h' r0 = lookup h r0"
    using assms by (rule apply_filter_frame(1))
  show "\<forall>r'. res = Inr r' \<longrightarrow>
          lookup h r' = None \<and> (\<exists>A. lookup h' r' = Some A \<and> call_filter F T = Inr A)"
    using assms by (rule apply_filter_frame(2))
  show "\<forall>A. wf_df T \<and> call_filter F T = Inr A \<longrightarrow>
          (\<forall>a \<in> set (df_rows A). \<exists>t \<in> set (df_rows T).
              a = row_apply (filter_column F) (cell_out F) t)"
  proof (intro allI impI ballI)
    fix A a
    assume "wf_df T \<and> call_filter F T = Inr A" and a: "a \<in> set (df_rows A)"
    then have "df_rows A = map (row_apply (filter_column F) (cell_out F))
        (filter (\<lambda>r. \<exists>x. row_cell r (filter_column F) = Some x \<and> cell_test F x) (df_rows T))"
      by (intro df_rows_call_filter(1)) simp_all
    with a show "\<exists>t \<in> set (df_rows T). a = row_apply (filter_column F) (cell_out F) t"
      by auto
  qed
  show "selects_only F \<longrightarrow> (\<forall>x. cell_out F x = x)"
    by (simp add: selects_only_out)
  show "(\<forall>types. F \<noteq> InstrClass types False) \<longrightarrow> (\<forall>v. cell_out F (CStr v) = CStr v)"
    by (cases F) auto
qed

theorem filters_frame_and_values_witness:
  "lookup [T_num] 0 = Some T_num
   \<and> fst (apply_filter (LookDir [''1'']) 0 [T_num]) = Inr 3
   \<and> lookup (snd (apply_filter (LookDir [''1'']) 0 [T_num])) 0 = Some T_num
   \<and> lookup [T_num] 3 = None
   \<and> (\<exists>A. lookup (snd (apply_filter (LookDir [''1'']) 0 [T_num])) 3 = Some A
          \<and> call_filter (LookDir [''1'']) T_num = Inr A)
   \<and> wf_df T_num
   \<and> (7, [(''siteId'', CStr ''HENGELO''), (''lookDir'', CStr ''1'')])
       = row_apply ''lookDir'' (cell_out (LookDir [''1'']))
           (7, [(''siteId'', CStr ''HENGELO''), (''lookDir'', CInt 1)])
   \<and> cell_out (LookDir [''1'']) (CStr ''E'') = CStr ''E''"
proof -
  have lk: "lookup [T_num] 0 = Some T_num"
    by (simp add: lookup_def)
  obtain h' where run: "apply_filter (LookDir [''1'']) 0 [T_num] = (Inr 3, h')"
    by (simp add: filter_lookDir_run T_num_def)
  have wf: "wf_df T_num"
    by (simp add: wf_df_def T_num_def)
  note inst = filters_frame_and_values [OF lk run]
  from inst have "lookup h' 0 = lookup [T_num] 0"
    using lk by simp
  moreover from inst have "lookup [T_num] 3 = None
      \<and> (\<exists>A. lookup h' 3 = Some A \<and> call_filter (LookDir [''1'']) T_num = Inr A)"
    by simp
  moreover from inst have "cell_out (LookDir [''1'']) (CStr ''E'') = CStr ''E''"
    by simp
  moreover have "(7, [(''siteId'', CStr ''HENGELO''), (''lookDir'', CStr ''1'')])
       = row_apply ''lookDir'' (cell_out (LookDir [''1'']))
           (7, [(''siteId'', CStr ''HENGELO''), (''lookDir'', CInt 1)])"
  proof -
    have out: "call_filter (LookDir [''1'']) T_num =
        Inr \<lparr>df_index = [7],
             df_cols = [(''siteId'', [CStr ''HENGELO'']), (''lookDir'', [CStr ''1''])]\<rparr>"
      by (simp add: eval_defs T_num_def nat_digits.simps digit_char_def)
    from inst wf out have "\<forall>a \<in> set (df_rows \<lparr>df_index = [7],
             df_cols = [(''siteId'', [CStr ''HENGELO'']), (''lookDir'', [CStr ''1''])]\<rparr>).
        \<exists>t \<in> set (df_rows T_num). a = row_apply (filter_column (LookDir [''1'']))
             (cell_out (LookDir [''1''])) t"
      by blast
    then show ?thesis
      by (simp add: df_rows_def attach_col_def T_num_def)
  qed
  ultimately show ?thesis
    using lk run wf by simp
qed

lemma contains_nocase_All: "contains_nocase ''All'' x = sublist ''all'' (map lower_ascii x)"
  by (simp add: contains_nocase_def lower_ascii_def str_in_sublist)

lemma cell_test_SatSys:
  "cell_test (SatSys satSystems) x
     = (sublist ''all'' (map lower_ascii (py_str x)) \<or> (\<exists>sat \<in> set satSystems. sublist sat (py_str x)))"
  by (simp add: contains_nocase_All list_ex_str_in)

lemma rows_satSys:
  assumes "wf_df T" and A: "call_filter (SatSys satSystems) T = Inr A"
  shows "df_rows A = map (row_apply ''satSys'' (\<lambda>x. CStr (py_str x))) 
     (filter (\<lambda>r. \<exists>x. row_cell r ''satSys'' = Some x
                      \<and> (sublist ''all'' (map lower_ascii (py_str x))
                           \<or> (\<exists>sat \<in> set satSystems. sublist sat (py_str x)))) (df_rows T))"
  unfolding df_rows_call_filter(1) [OF assms] cell_test_SatSys cell_out_fun filter_column.simps ..

lemma kept_string_row:
  assumes rows: "rows' = map (row_apply c (\<lambda>x. CStr (py_str x))) (filter keep rows)"
    and r: "r \<in> set rows" and v: "row_cell r c = Some (CStr v)" and k: "keep r"
  shows "r \<in> set rows'"
proof -
  have fixed: "row_apply c (\<lambda>x. CStr (py_str x)) r = r"
    using v by (rule row_apply_fixed) simp
  from r k have "r \<in> set (filter keep rows)"
    by simp
  then have "row_apply c (\<lambda>x. CStr (py_str x)) r
      \<in> row_apply c (\<lambda>x. CStr (py_str x)) ` set (filter keep rows)"
    by (rule imageI)
  then show ?thesis
    unfolding rows set_map fixed .
qed

text \<open>
  C5. The satellite-system filter keeps a row if and only if its satellite-system value,
  read as a string, contains \<open>All\<close> in any letter case or contains one of the requested
  codes as a substring; kept rows come back in order, with that value as a string. In
  particular a row with value \<open>All\<close> is kept whatever is requested, and a row with value
  \<open>S1A,RS2\<close> is kept when \<open>S1A\<close> is requested.
\<close>

theorem satSys_keeps_all_or_requested:
  assumes "wf_df T" and "has_col T ''satSys''"
  shows "\<exists>A. call_filter (SatSys satSystems) T = Inr A
       \<and> df_rows A = map (row_apply ''satSys'' (\<lambda>x. CStr (py_str x)))
           (filter (\<lambda>r. \<exists>x. row_cell r ''satSys'' = Some x
                      \<and> (sublist ''all'' (map lower_ascii (py_str x))
                           \<or> (\<exists>sat \<in> set satSystems. sublist sat (py_str x))))
              (df_rows T))
       \<and> (\<forall>r \<in> set (df_rows T). row_cell r ''satSys'' = Some (CStr ''All'')
             \<longrightarrow> r \<in> set (df_rows A))
       \<and> (\<forall>r \<in> set (df_rows T). row_cell r ''satSys'' = Some (CStr ''S1A,RS2'')
             \<and> ''S1A'' \<in> set satSystems \<longrightarrow> r \<in> set (df_rows A))"
proof -
  from assms(2) have "\<exists>A. call_filter (SatSys satSystems) T = Inr A"
    by (intro call_filter_total) simp
  then obtain A where A: "call_filter (SatSys satSystems) T = Inr A" ..
  let ?keep = "\<lambda>r. \<exists>x. row_cell r ''satSys'' = Some x
                      \<and> (sublist ''all'' (map lower_ascii (py_str x))
                           \<or> (\<exists>sat \<in> set satSystems. sublist sat (py_str x)))"
  have rows: "df_rows A
      = map (row_apply ''satSys'' (\<lambda>x. CStr (py_str x))) (filter ?keep (df_rows T))"
    using assms(1) A by (rule rows_satSys)
  have all: "sublist ''all'' (map lower_ascii (py_str (CStr ''All'')))"
    by (simp add: lower_ascii_def)
  have s1a: "sublist ''S1A'' (py_str (CStr ''S1A,RS2''))"
    by (simp add: sublist_code)
  have one: "r \<in> set (df_rows A)"
    if "r \<in> set (df_rows T)" and "row_cell r ''satSys'' = Some (CStr ''All'')" for r
  proof (rule kept_string_row [OF rows that])
    from that(2) all show "?keep r" by blast
  qed
  have two: "r \<in> set (df_rows A)"
    if "r \<in> set (df_rows T)" and "row_cell r ''satSys'' = Some (CStr ''S1A,RS2'')"
      and "''S1A'' \<in> set satSystems" for r
  proof (rule kept_string_row [OF rows that(1,2)])
    from that(2,3) s1a show "?keep r" by blast
  qed
  from A rows one two show ?thesis
    by blast
qed

theorem satSys_keeps_all_or_requested_witness:
  "wf_df T_sat \<and> has_col T_sat ''satSys''
   \<and> call_filter (SatSys [''S1A'']) T_sat =
       Inr \<lparr>df_index = [1, 2],
            df_cols = [(''satSys'', [CStr ''All'', CStr ''S1A,RS2'']),
                       (''owner'', [CStr ''TUD'', CStr ''KNMI''])]\<rparr>
   \<and> df_rows T_sat =
       [(1, [(''satSys'', CStr ''All''), (''owner'', CStr ''TUD'')]),
        (2, [(''satSys'', CStr ''S1A,RS2''), (''owner'', CStr ''KNMI'')]),
        (3, [(''satSys'', CStr ''TSX''), (''owner'', CStr ''TUD'')])]
   \<and> (\<exists>A. call_filter (SatSys [''S1A'']) T_sat = Inr A
        \<and> (1, [(''satSys'', CStr ''All''), (''owner'', CStr ''TUD'')]) \<in> set (df_rows A)
        \<and> (2, [(''satSys'', CStr ''S1A,RS2''), (''owner'', CStr ''KNMI'')]) \<in> set (df_rows A))"
proof -
  have wf: "wf_df T_sat"
    by (simp add: wf_df_def T_sat_def)
  have col: "has_col T_sat ''satSys''"
    by (simp add: has_col_def T_sat_def)
  have run: "call_filter (SatSys [''S1A'']) T_sat =
       Inr \<lparr>df_index = [1, 2],
            df_cols = [(''satSys'', [CStr ''All'', CStr ''S1A,RS2'']),
                       (''owner'', [CStr ''TUD'', CStr ''KNMI''])]\<rparr>"
    by (simp add: eval_defs T_sat_def)
  have rows: "df_rows T_sat =
       [(1, [(''satSys'', CStr ''All''), (''owner'', CStr ''TUD'')]),
        (2, [(''satSys'', CStr ''S1A,RS2''), (''owner'', CStr ''KNMI'')]),
        (3, [(''satSys'', CStr ''TSX''), (''owner'', CStr ''TUD'')])]"
    by (simp add: df_rows_def attach_col_def T_sat_def)
  from satSys_keeps_all_or_requested [OF wf col, of "[''S1A'']"]
  obtain A where A: "call_filter (SatSys [''S1A'']) T_sat = Inr A"
    and one: "\<forall>r \<in> set (df_rows T_sat). row_cell r ''satSys'' = Some (CStr ''All'')
             \<longrightarrow> r \<in> set (df_rows A)"
    and two: "\<forall>r \<in> set (df_rows T_sat). row_cell r ''satSys'' = Some (CStr ''S1A,RS2'')
             \<and> ''S1A'' \<in> set [''S1A''] \<longrightarrow> r \<in> set (df_rows A)"
    by blast
  from one have "(1, [(''satSys'', CStr ''All''), (''owner'', CStr ''TUD'')]) \<in> set (df_rows A)"
    by (simp add: rows row_cell_def)
  moreover from two
  have "(2, [(''satSys'', CStr ''S1A,RS2''), (''owner'', CStr ''KNMI'')]) \<in> set (df_rows A)"
    by (simp add: rows row_cell_def)
  ultimately show ?thesis
    using wf col run rows A by blast
qed













section \<open>Properties of the renderer\<close>

lemmas render_defs = plot_insar_points_interactive_def build_map_def make_owner_color_map_def
  make_instr_icon_map_def py_sorted_def dropna_def dict_get_def make_marker_def
  df_empty_def has_col_def nrows_def print_def write_file_def df_rows_def attach_col_def
  row_cell_def icon_shapes_def number_of_sides_def extend_colors.simps

text \<open>
  C2. When the table is empty, or lacks the latitude or the longitude column, the renderer
  prints an error line, returns no map (\<open>None\<close>) and writes no file: the files are those
  from before the call.
\<close>

theorem renderer_rejects_empty_or_incomplete:
  assumes "df_empty T \<or> \<not> has_col T (lat_col a) \<or> \<not> has_col T (lon_col a)"
  shows "plot_insar_points_interactive L a T w
           = Some (Inr None, print (if df_empty T then ErrNoData else ErrMissingLatLon) w)
       \<and> files (print (if df_empty T then ErrNoData else ErrMissingLatLon) w) = files w"
  using assms by (auto simp: plot_insar_points_interactive_def print_def)

theorem renderer_rejects_empty_or_incomplete_witness:
  "df_empty T_norows
   \<and> plot_insar_points_interactive L_demo default_args T_norows w_empty
       = Some (Inr None, \<lparr>files = [], stdout = [ErrNoData]\<rparr>)
   \<and> \<not> df_empty T_sat \<and> \<not> has_col T_sat (lat_col default_args)
   \<and> plot_insar_points_interactive L_demo default_args T_sat w_empty
       = Some (Inr None, \<lparr>files = [], stdout = [ErrMissingLatLon]\<rparr>)"
proof -
  have e: "df_empty T_norows"
    by (simp add: df_empty_def T_norows_def)
  have n: "\<not> df_empty T_sat" and c: "\<not> has_col T_sat (lat_col default_args)"
    by (simp_all add: df_empty_def has_col_def T_sat_def default_args_def)
  from e have "df_empty T_norows \<or> \<not> has_col T_norows (lat_col default_args)
      \<or> \<not> has_col T_norows (lon_col default_args)"
    by simp
  from renderer_rejects_empty_or_incomplete [OF this, of L_demo w_empty] e
  have one: "plot_insar_points_interactive L_demo default_args T_norows w_empty
       = Some (Inr None, \<lparr>files = [], stdout = [ErrNoData]\<rparr>)"
    by (simp add: print_def w_empty_def)
  from c have "df_empty T_sat \<or> \<not> has_col T_sat (lat_col default_args)
      \<or> \<not> has_col T_sat (lon_col default_args)"
    by simp
  from renderer_rejects_empty_or_incomplete [OF this, of L_demo w_empty] n
  have two: "plot_insar_points_interactive L_demo default_args T_sat w_empty
       = Some (Inr None, \<lparr>files = [], stdout = [ErrMissingLatLon]\<rparr>)"
    by (simp add: print_def w_empty_def)
  from e one n c two show ?thesis
    by simp
qed

text \<open>
  C9, as stated, fails in its second half. The maps are built from the values that are
  not missing (\<open>dropna\<close>), the rows are looked up as they are: a row without owner is not
  in the colour map and takes the fallback. In the table below the second row has no
  owner; the colour map holds the one owner \<open>TUD\<close> and the second marker is gray.
\<close>

theorem fallback_unreachable_counterexample:
  "plot_insar_points_interactive L_demo default_args T_owner w_empty =
     Some (Inr (Some
        \<lparr>location = (51, 4), zoom = 6, tiles = ''OpenStreetMap'',
         markers =
           [CircleMarker (52, 4) ''#1f77b4'' ''<b>owner:</b> TUD<br><b>instrClass:</b> CR'',
            RegularPolygonMarker (51, 5) 3 ''gray''
              ''<b>owner:</b> nan<br><b>instrClass:</b> TR''],
         title = ''InSAR Target Locations'',
         legend_owners = [(CStr ''TUD'', ''#1f77b4'')],
         legend_instr = [(CStr ''CR'', ''circle''), (CStr ''TR'', ''triangle'')]\<rparr>),
       \<lparr>files =
          [(''insar_points.geojson'',
            GeoJSON
             [((4, 52), 1,
               [(''latitude'', CInt 52), (''longitude'', CInt 4),
                (''owner'', CStr ''TUD''), (''instrClass'', CStr ''CR'')]),
              ((5, 51), 2,
               [(''latitude'', CInt 51), (''longitude'', CInt 5),
                (''owner'', CNaN), (''instrClass'', CStr ''TR'')])])],
        stdout = [MsgCreating 2, MsgGeoJSONSaved ''insar_points.geojson'', MsgMapReady]\<rparr>)
   \<and> map_of (df_cols T_owner) ''owner'' = Some [CStr ''TUD'', CNaN]
   \<and> make_owner_color_map L_demo [CStr ''TUD'', CNaN] = Some (Inr [(CStr ''TUD'', ''#1f77b4'')])
   \<and> CNaN \<notin> set (map fst [(CStr ''TUD'', ''#1f77b4'')])"
  by (simp add: render_defs L_demo_def default_args_def T_owner_def w_empty_def)

subsection \<open>Python equality on cells\<close>

lemma py_eq_refl: "x \<noteq> CNaN \<Longrightarrow> py_eq x x"
  by (cases x) simp_all

lemma py_eq_sym: "py_eq x y \<Longrightarrow> py_eq y x"
  by (cases x; cases y) (auto split: if_splits)

lemma py_eq_NaN [simp]: "\<not> py_eq x CNaN" "\<not> py_eq CNaN x"
  by (cases x; simp)+

lemma py_eq_str: "is_str x \<Longrightarrow> py_eq y x \<longleftrightarrow> y = x"
  by (cases x; cases y) auto

lemma py_eq_num: "is_number x \<Longrightarrow> is_number y \<Longrightarrow> py_eq y x \<longleftrightarrow> num_val y = num_val x"
  by (cases x; cases y) auto

lemma py_eq_is_str: "py_eq y x \<Longrightarrow> is_str y = is_str x"
  by (cases x; cases y) auto

lemma py_eq_is_num: "py_eq y x \<Longrightarrow> is_number y = is_number x"
  by (cases x; cases y) auto

subsection \<open>\<open>unique\<close>\<close>

lemma set_unique_subset: "set (unique xs) \<subseteq> set xs"
  by (induction xs rule: unique.induct) auto

lemma unique_represents:
  "x \<in> set xs \<Longrightarrow> x \<noteq> CNaN \<Longrightarrow> \<exists>y \<in> set (unique xs). py_eq y x"
proof (induction xs rule: unique.induct)
  case 1
  then show ?case by simp
next
  case (2 a xs)
  show ?case
  proof (cases "py_eq x a")
    case True
    then have "py_eq a x" by (rule py_eq_sym)
    then show ?thesis by auto
  next
    case False
    from "2.prems"(2) have "py_eq x x" by (rule py_eq_refl)
    with False have "x \<noteq> a" by auto
    with "2.prems"(1) False have "x \<in> set (filter (\<lambda>y. \<not> py_eq y a) xs)"
      by simp
    from "2.IH" [OF this "2.prems"(2)] show ?thesis by auto
  qed
qed

lemma unique_pairwise: "sorted_wrt (\<lambda>a b. \<not> py_eq b a) (unique xs)"
proof (induction xs rule: unique.induct)
  case 1
  show ?case by simp
next
  case (2 a xs)
  have "set (unique (filter (\<lambda>y. \<not> py_eq y a) xs)) \<subseteq> set (filter (\<lambda>y. \<not> py_eq y a) xs)"
    by (rule set_unique_subset)
  then have "\<forall>b \<in> set (unique (filter (\<lambda>y. \<not> py_eq y a) xs)). \<not> py_eq b a"
    by auto
  moreover have "unique (a # xs) = a # unique (filter (\<lambda>y. \<not> py_eq y a) xs)"
    by simp
  ultimately show ?case
    using "2.IH" by (simp only: sorted_wrt.simps)
qed

lemma list_all_unique:
  assumes "CNaN \<notin> set xs" and "\<And>x y. py_eq y x \<Longrightarrow> P y = P x"
  shows "list_all P (unique xs) = list_all P xs"
proof
  assume "list_all P xs"
  then show "list_all P (unique xs)"
    using set_unique_subset [of xs] by (auto simp: list_all_iff)
next
  assume u: "list_all P (unique xs)"
  show "list_all P xs"
    unfolding list_all_iff
  proof
    fix x assume x: "x \<in> set xs"
    with assms(1) have "x \<noteq> CNaN" by auto
    with x obtain y where "y \<in> set (unique xs)" "py_eq y x"
      using unique_represents by blast
    with u assms(2) show "P x" by (auto simp: list_all_iff)
  qed
qed

lemma unique_str:
  assumes "list_all is_str xs"
  shows "distinct (unique xs)" and "set (unique xs) = set xs"
proof -
  have str: "is_str x" if "x \<in> set xs" for x
    using assms that by (simp add: list_all_iff)
  have "sorted_wrt (\<lambda>a b. a \<noteq> b) (unique xs)"
  proof (rule sorted_wrt_mono_rel [OF _ unique_pairwise])
    fix a b assume "a \<in> set (unique xs)" "b \<in> set (unique xs)" "\<not> py_eq b a"
    then show "a \<noteq> b"
      using str set_unique_subset [of xs] py_eq_str [of a a] by auto
  qed
  then show "distinct (unique xs)"
    by (simp add: distinct_conv_nth sorted_wrt_iff_nth_less nat_neq_iff) metis
  show "set (unique xs) = set xs"
  proof
    show "set (unique xs) \<subseteq> set xs" by (rule set_unique_subset)
    show "set xs \<subseteq> set (unique xs)"
    proof
      fix x assume x: "x \<in> set xs"
      then have s: "is_str x" by (rule str)
      then have "x \<noteq> CNaN" by auto
      with x obtain y where "y \<in> set (unique xs)" "py_eq y x"
        using unique_represents by blast
      with s show "x \<in> set (unique xs)" by (simp add: py_eq_str)
    qed
  qed
qed

end
